theory Spec2Isabelle
  imports Main "HOL-Library.Multiset" "HOL-Library.List_Lexorder" "HOL-Library.Char_ord"
begin

section \<open>Strings\<close>

text \<open>
  A Python \<open>str\<close> is modelled as a \<open>string\<close>: one \<open>char\<close> per code point, for the code
  points below 256. The character classes below are Python's on that range.
\<close>

definition startswith :: "string \<Rightarrow> string \<Rightarrow> bool" where
  "startswith s p = (take (length p) s = p)"

definition endswith :: "string \<Rightarrow> string \<Rightarrow> bool" where
  "endswith s p = (length p \<le> length s \<and> drop (length s - length p) s = p)"

definition isspace :: "char \<Rightarrow> bool" where
  \<comment> \<open>\<open>str.isspace\<close>, which is also the class \<open>\s\<close> of \<open>re\<close> on a \<open>str\<close> pattern\<close>
  "isspace c =
     (let n = (of_char c :: nat)
      in (9 \<le> n \<and> n \<le> 13) \<or> (28 \<le> n \<and> n \<le> 32) \<or> n = 133 \<or> n = 160)"

definition strip :: "string \<Rightarrow> string" where
  \<comment> \<open>\<open>str.strip()\<close>: leading and trailing whitespace removed\<close>
  "strip s = rev (dropWhile isspace (rev (dropWhile isspace s)))"

section \<open>The diff engine: \<open>prepare_commit_actions\<close>\<close>

text \<open>
  A row of \<open>fetch_database_objects\<close> is \<open>(schema_name, object_name, object_type, definition)\<close>
  and a row of \<open>fetch_table_ddl\<close> is \<open>(schema_name, table_name, ddl)\<close>. The names and the type
  are catalog columns that are never null; the definition and the DDL may be null (\<open>None\<close>).
\<close>

type_synonym proc_row = "string \<times> string \<times> string \<times> string option"
type_synonym table_row = "string \<times> string \<times> string option"

text \<open>
  An action is the dict \<open>{'action': ..., 'file_path': ..., 'content': ...}\<close>; a delete action
  has no \<open>'content'\<close> key.
\<close>

record commit_action =
  action :: string
  file_path :: string
  content :: "string option"

definition TYPE_FOLDERS :: "(string \<times> string) list" where
  "TYPE_FOLDERS =
     [(''V'', ''views''), (''P'', ''procedures''), (''FN'', ''others''),
      (''IF'', ''others''), (''TF'', ''others''), (''TR'', ''others'')]"

definition dict_get :: "('k \<times> 'v) list \<Rightarrow> 'k \<Rightarrow> 'v \<Rightarrow> 'v" where
  \<comment> \<open>\<open>d.get(k, default)\<close>\<close>
  "dict_get d k dflt = (case map_of d k of None \<Rightarrow> dflt | Some v \<Rightarrow> v)"

definition or_empty :: "string option \<Rightarrow> string" where
  \<comment> \<open>\<open>x or ""\<close>: null and the empty string both give the empty string\<close>
  "or_empty x = (case x of None \<Rightarrow> [] | Some d \<Rightarrow> d)"

definition object_path :: "string \<Rightarrow> proc_row \<Rightarrow> string" where
  \<comment> \<open>\<open>f"{database_name}/{type_folder}/{schema_name}.{object_name}.sql"\<close>\<close>
  "object_path database_name row =
     (case row of (schema_name, object_name, object_type, defn) \<Rightarrow>
        let type_folder = dict_get TYPE_FOLDERS (strip object_type) ''procedures''
        in database_name @ ''/'' @ type_folder @ ''/'' @ schema_name @ ''.'' @ object_name
             @ ''.sql'')"

definition table_path :: "string \<Rightarrow> table_row \<Rightarrow> string" where
  \<comment> \<open>\<open>f"{database_name}/tables/{schema_name}.{table_name}.sql"\<close>\<close>
  "table_path database_name row =
     (case row of (schema_name, table_name, ddl) \<Rightarrow>
        database_name @ ''/tables/'' @ schema_name @ ''.'' @ table_name @ ''.sql'')"

text \<open>
  The objects the body of \<open>prepare_commit_actions\<close> can reach: its three container arguments,
  passed by reference, and the two containers it creates. A statement that mutates one of them
  is an update of its field.
\<close>

record frame =
  proc_rows :: "proc_row list"
  table_rows :: "table_row list"
  existing_files :: "string set"
  actions :: "commit_action list"
  current_files :: "string set"

definition enter :: "proc_row list \<Rightarrow> table_row list \<Rightarrow> string set \<Rightarrow> frame" where
  \<comment> \<open>the frame on entry: \<open>actions = []\<close>, \<open>current_files = set()\<close>\<close>
  "enter procs tables existing =
     \<lparr>proc_rows = procs, table_rows = tables, existing_files = existing,
      actions = [], current_files = {}\<rparr>"

definition proc_step :: "string \<Rightarrow> frame \<Rightarrow> proc_row \<Rightarrow> frame" where
  \<comment> \<open>the body of the loop over \<open>proc_rows\<close>\<close>
  "proc_step database_name fr row =
     (let path = object_path database_name row;
          fr1 = fr\<lparr>current_files := insert path (current_files fr)\<rparr>;
          text = or_empty (snd (snd (snd row)));
          act = (if path \<in> existing_files fr1 then ''update'' else ''create'')
      in fr1\<lparr>actions := actions fr1 @
               [\<lparr>action = act, file_path = path, content = Some text\<rparr>]\<rparr>)"

definition table_step :: "string \<Rightarrow> frame \<Rightarrow> table_row \<Rightarrow> frame" where
  \<comment> \<open>the body of the loop over \<open>table_rows\<close>\<close>
  "table_step database_name fr row =
     (let path = table_path database_name row;
          fr1 = fr\<lparr>current_files := insert path (current_files fr)\<rparr>;
          text = or_empty (snd (snd row));
          act = (if path \<in> existing_files fr1 then ''update'' else ''create'')
      in fr1\<lparr>actions := actions fr1 @
               [\<lparr>action = act, file_path = path, content = Some text\<rparr>]\<rparr>)"

definition delete_step :: "frame \<Rightarrow> string \<Rightarrow> frame" where
  \<comment> \<open>the body of the loop over \<open>deleted_files\<close>\<close>
  "delete_step fr path =
     fr\<lparr>actions := actions fr @ [\<lparr>action = ''delete'', file_path = path, content = None\<rparr>]\<rparr>"

text \<open>
  Python iterates a set in the order of its hash table, which the language leaves open (the
  hashes of strings change from one process to the next). The order is the parameter \<open>iter\<close>;
  \<open>enumerates iter\<close> says that it lists every finite set, each member once.
\<close>

definition enumerates :: "(string set \<Rightarrow> string list) \<Rightarrow> bool" where
  "enumerates iter = (\<forall>S. finite S \<longrightarrow> set (iter S) = S \<and> distinct (iter S))"

definition run_prepare_commit_actions ::
  "(string set \<Rightarrow> string list) \<Rightarrow> string \<Rightarrow> frame \<Rightarrow> frame \<times> nat \<times> nat" where
  \<comment> \<open>the statements of \<open>prepare_commit_actions\<close> on its frame: the frame at the
      \<open>return\<close>, \<open>total_objects\<close> and \<open>deleted_count\<close>\<close>
  "run_prepare_commit_actions iter database_name fr0 =
     (let fr1 = foldl (proc_step database_name) fr0 (proc_rows fr0);
          fr2 = foldl (table_step database_name) fr1 (table_rows fr1);
          db_existing_files =
            Set.filter (\<lambda>f. startswith f (database_name @ ''/'')) (existing_files fr2);
          deleted_files = db_existing_files - current_files fr2;
          fr3 = foldl delete_step fr2 (iter deleted_files);
          total_objects = length (proc_rows fr3) + length (table_rows fr3);
          deleted_count = card deleted_files
      in (fr3, total_objects, deleted_count))"

definition prepare_commit_actions ::
  "(string set \<Rightarrow> string list) \<Rightarrow> string \<Rightarrow> proc_row list \<Rightarrow> table_row list \<Rightarrow> string set
     \<Rightarrow> commit_action list \<times> nat \<times> nat" where
  "prepare_commit_actions iter database_name procs tables existing =
     (case run_prepare_commit_actions iter database_name (enter procs tables existing) of
        (fr, total_objects, deleted_count) \<Rightarrow> (actions fr, total_objects, deleted_count))"

section \<open>The normalizer: the loop of \<open>fetch_database_objects\<close>\<close>

definition isword :: "char \<Rightarrow> bool" where
  \<comment> \<open>the class \<open>\w\<close> of \<open>re\<close> on a \<open>str\<close> pattern: alphanumeric or the underscore\<close>
  "isword c =
     (let n = (of_char c :: nat)
      in (48 \<le> n \<and> n \<le> 57) \<or> (65 \<le> n \<and> n \<le> 90) \<or> n = 95 \<or> (97 \<le> n \<and> n \<le> 122)
         \<or> n = 170 \<or> n = 178 \<or> n = 179 \<or> n = 181 \<or> n = 185 \<or> n = 186
         \<or> (188 \<le> n \<and> n \<le> 190) \<or> (192 \<le> n \<and> n \<le> 214) \<or> (216 \<le> n \<and> n \<le> 246)
         \<or> 248 \<le> n)"

definition tolower :: "char \<Rightarrow> char" where
  \<comment> \<open>the lower case \<open>re.IGNORECASE\<close> compares by\<close>
  "tolower c =
     (let n = (of_char c :: nat)
      in if (65 \<le> n \<and> n \<le> 90) \<or> (192 \<le> n \<and> n \<le> 222 \<and> n \<noteq> 215)
         then char_of (n + 32) else c)"

definition boundary :: "char option \<Rightarrow> string \<Rightarrow> bool" where
  \<comment> \<open>\<open>\b\<close> between the character before (\<open>None\<close> at the start of the text) and the
      rest of the text: exactly one side is a word character\<close>
  "boundary prev s =
     ((case prev of None \<Rightarrow> False | Some c \<Rightarrow> isword c)
        \<noteq> (case s of [] \<Rightarrow> False | c # cs \<Rightarrow> isword c))"

fun literal :: "string \<Rightarrow> string \<Rightarrow> string option" where
  \<comment> \<open>the literal \<open>p\<close> at the start of the text, ignoring case: the text after it\<close>
  "literal [] s = Some s"
| "literal (p # ps) [] = None"
| "literal (p # ps) (c # cs) = (if tolower c = tolower p then literal ps cs else None)"

definition spaces :: "string \<Rightarrow> string option" where
  \<comment> \<open>\<open>\s+\<close> at the start of the text: the text after the whitespace. The greedy match
      takes all of it, and giving a character back never helps: what follows is a letter.\<close>
  "spaces s = (case s of [] \<Rightarrow> None
               | c # cs \<Rightarrow> if isspace c then Some (dropWhile isspace cs) else None)"

definition match_clause :: "string \<Rightarrow> char option \<Rightarrow> string \<Rightarrow> nat option" where
  \<comment> \<open>\<open>\bCREATE\s+kw\b\<close> at the start of the text \<open>s\<close>, after the character \<open>prev\<close>:
      the length of the match\<close>
  "match_clause kw prev s =
     (if \<not> boundary prev s then None
      else case literal ''CREATE'' s of None \<Rightarrow> None
      | Some r1 \<Rightarrow>
     (case spaces r1 of None \<Rightarrow> None
      | Some r2 \<Rightarrow>
     (case literal kw r2 of None \<Rightarrow> None
      | Some r3 \<Rightarrow>
        let n = length s - length r3
        in if boundary (Some (s ! (n - 1))) r3 then Some n else None)))"

fun re_search :: "string \<Rightarrow> char option \<Rightarrow> string \<Rightarrow> (nat \<times> nat) option" where
  \<comment> \<open>the leftmost match: where it starts, counted from here, and its length\<close>
  "re_search kw prev [] = None"
| "re_search kw prev (c # cs) =
     (case match_clause kw prev (c # cs) of
        Some n \<Rightarrow> Some (0, n)
      | None \<Rightarrow>
         (case re_search kw (Some c) cs of None \<Rightarrow> None | Some (i, n) \<Rightarrow> Some (Suc i, n)))"

definition re_sub :: "string \<Rightarrow> string \<Rightarrow> string \<Rightarrow> string" where
  \<comment> \<open>\<open>re.sub(r'\bCREATE\s+kw\b', repl, s, flags=re.IGNORECASE, count=1)\<close>\<close>
  "re_sub kw repl s =
     (case re_search kw None s of
        None \<Rightarrow> s
      | Some (i, n) \<Rightarrow> take i s @ repl @ drop (i + n) s)"

definition create_or_alter :: "string \<Rightarrow> string \<Rightarrow> string" where
  \<comment> \<open>the rewrite of a definition that is not empty, by the object type\<close>
  "create_or_alter object_type defn =
     (let obj_type = strip object_type
      in if obj_type \<in> {''P'', ''FN'', ''IF'', ''TF''} then
           (if obj_type = ''P'' then
              re_sub ''PROC'' ''CREATE OR ALTER PROC''
                (re_sub ''PROCEDURE'' ''CREATE OR ALTER PROCEDURE'' defn)
            else if obj_type \<in> {''FN'', ''IF'', ''TF''} then
              re_sub ''FUNCTION'' ''CREATE OR ALTER FUNCTION'' defn
            else defn)
         else if obj_type = ''V'' then re_sub ''VIEW'' ''CREATE OR ALTER VIEW'' defn
         else if obj_type = ''TR'' then re_sub ''TRIGGER'' ''CREATE OR ALTER TRIGGER'' defn
         else defn)"

definition convert_row :: "proc_row \<Rightarrow> proc_row" where
  \<comment> \<open>the body of the loop: a null or empty definition is kept as it is\<close>
  "convert_row row =
     (case row of (schema_name, object_name, object_type, defn) \<Rightarrow>
        (schema_name, object_name, object_type,
         (case defn of None \<Rightarrow> None
          | Some d \<Rightarrow> if d = [] then Some d else Some (create_or_alter object_type d))))"

datatype error =
  PyodbcError | GitlabAuthenticationError | GitlabGetError | GitlabCreateError | ValueError

definition fetch_database_objects :: "error + proc_row list \<Rightarrow> error + proc_row list" where
  \<comment> \<open>the argument is what the cursor gives for \<open>QUERY\<close>: an error raised, or the rows\<close>
  "fetch_database_objects cursor =
     (case cursor of Inl e \<Rightarrow> Inl e | Inr rows \<Rightarrow> Inr (map convert_row rows))"

definition fetch_table_ddl :: "error + table_row list \<Rightarrow> error + table_row list" where
  "fetch_table_ddl cursor = (case cursor of Inl e \<Rightarrow> Inl e | Inr rows \<Rightarrow> Inr rows)"

section \<open>Configuration and \<open>get_databases\<close>\<close>

fun split :: "char \<Rightarrow> string \<Rightarrow> string list" where
  \<comment> \<open>\<open>s.split(sep)\<close> for a separator of one character\<close>
  "split sep [] = [[]]"
| "split sep (c # cs) =
     (if c = sep then [] # split sep cs
      else (case split sep cs of [] \<Rightarrow> [[c]] | w # ws \<Rightarrow> (c # w) # ws))"

text \<open>The environment variables the module reads when it is loaded (\<open>None\<close>: not set).\<close>

record environ =
  env_DATABASE_MODE :: "string option"
  env_DATABASES :: "string option"
  env_EXCLUDE_DATABASES :: "string option"
  env_GITLAB_BRANCH :: "string option"

definition DATABASE_MODE :: "environ \<Rightarrow> string" where
  "DATABASE_MODE env = (case env_DATABASE_MODE env of None \<Rightarrow> ''specific'' | Some m \<Rightarrow> m)"

definition DATABASES :: "environ \<Rightarrow> string list" where
  "DATABASES env =
     (case env_DATABASES env of
        None \<Rightarrow> [''YOUR_DB'']
      | Some v \<Rightarrow> if v = [] then [''YOUR_DB''] else split CHR '','' v)"

definition EXCLUDE_DATABASES :: "environ \<Rightarrow> string list" where
  "EXCLUDE_DATABASES env =
     split CHR '',''
       (case env_EXCLUDE_DATABASES env of None \<Rightarrow> ''master,tempdb,model,msdb'' | Some v \<Rightarrow> v)"

definition get_databases :: "environ \<Rightarrow> error + string list \<Rightarrow> error + string list" where
  \<comment> \<open>the second argument is what the cursor gives for the query on \<open>sys.databases\<close>; the
      query is run only when the mode is not \<open>specific\<close>\<close>
  "get_databases env cursor =
     (if DATABASE_MODE env = ''specific'' then Inr (DATABASES env)
      else case cursor of Inl e \<Rightarrow> Inl e
      | Inr all_dbs \<Rightarrow>
          if DATABASE_MODE env = ''all'' then Inr all_dbs
          else if DATABASE_MODE env = ''all_except'' then
            Inr (filter (\<lambda>db. db \<notin> set (EXCLUDE_DATABASES env)) all_dbs)
          else Inl ValueError)"

section \<open>The repository: \<open>get_existing_files\<close> and \<open>commit_to_gitlab\<close>\<close>

definition get_existing_files :: "error + (string \<times> string) list \<Rightarrow> error + string set" where
  \<comment> \<open>the argument is what \<open>repository_tree\<close> gives: an error raised, or the items as
      \<open>(type, path)\<close>. Only \<open>GitlabGetError\<close> is caught, and gives the empty set; any
      other error is raised to the caller.\<close>
  "get_existing_files tree =
     (case tree of
        Inl e \<Rightarrow> if e = GitlabGetError then Inr {} else Inl e
      | Inr items \<Rightarrow>
          Inr (set (map snd
                 (filter (\<lambda>item. fst item = ''blob'' \<and> endswith (snd item) ''.sql'') items))))"

text \<open>The payload of one commit request, and the commit the server answers with.\<close>

record commit_data =
  data_branch :: "string option"
  data_commit_message :: string
  data_actions :: "commit_action list"

record commit =
  additions :: nat
  deletions :: nat
  commit_id :: string

text \<open>
  The project is its answer to a commit request (\<open>create\<close>) and the requests it has received
  so far (\<open>requests\<close>): \<open>project.commits.create(data)\<close> adds \<open>data\<close> to them.
\<close>

record project =
  create :: "commit_data \<Rightarrow> error + commit"
  requests :: "commit_data list"

definition commit_to_gitlab ::
  "project \<Rightarrow> commit_action list \<Rightarrow> string option \<Rightarrow> string
     \<Rightarrow> (error + commit option) \<times> project" where
  "commit_to_gitlab proj acts branch commit_message =
     (if acts = [] then (Inr None, proj)
      else
        let data = \<lparr>data_branch = branch, data_commit_message = commit_message,
                    data_actions = acts\<rparr>;
            proj' = proj\<lparr>requests := requests proj @ [data]\<rparr>
        in (case create proj data of
              Inl e \<Rightarrow> (Inl e, proj')
            | Inr c \<Rightarrow>
                if additions c = 0 \<and> deletions c = 0 then (Inr None, proj')
                else (Inr (Some c), proj')))"

section \<open>The run: \<open>main\<close>\<close>

text \<open>What the database server answers during one run.\<close>

record server =
  server_connect :: "error option"
  server_databases :: "error + string list"
  database_connect :: "string \<Rightarrow> error option"
  database_objects :: "string \<Rightarrow> error + proc_row list"
  database_tables :: "string \<Rightarrow> error + table_row list"

text \<open>
  The state of the loop over the databases: \<open>all_actions\<close>, the dict \<open>db_stats\<close> in the
  order of its keys, with \<open>(objects, deletions)\<close> for each, and the set \<open>existing_files\<close>
  that every call of \<open>prepare_commit_actions\<close> is given.
\<close>

record loop_state =
  all_actions :: "commit_action list"
  db_stats :: "(string \<times> nat \<times> nat) list"
  tracked :: "string set"

definition dict_set :: "('k \<times> 'v) list \<Rightarrow> 'k \<Rightarrow> 'v \<Rightarrow> ('k \<times> 'v) list" where
  \<comment> \<open>\<open>d[k] = v\<close>: a key that is present keeps its place\<close>
  "dict_set d k v =
     (if k \<in> set (map fst d) then map (\<lambda>(k', v'). if k' = k then (k', v) else (k', v')) d
      else d @ [(k, v)])"

definition process_database ::
  "server \<Rightarrow> (string set \<Rightarrow> string list) \<Rightarrow> loop_state \<Rightarrow> string \<Rightarrow> loop_state" where
  \<comment> \<open>the body of the loop: an exception raised in the \<open>try\<close> leaves the state as it is\<close>
  "process_database srv iter st database_name =
     (case database_connect srv database_name of
        Some e \<Rightarrow> st
      | None \<Rightarrow>
     (case fetch_database_objects (database_objects srv database_name) of
        Inl e \<Rightarrow> st
      | Inr procs \<Rightarrow>
     (case fetch_table_ddl (database_tables srv database_name) of
        Inl e \<Rightarrow> st
      | Inr tables \<Rightarrow>
     (case run_prepare_commit_actions iter database_name (enter procs tables (tracked st)) of
        (fr, total_objects, deleted_count) \<Rightarrow>
          \<lparr>all_actions = all_actions st @ actions fr,
           db_stats = dict_set (db_stats st) database_name (total_objects, deleted_count),
           tracked = existing_files fr\<rparr>))))"

text \<open>The figures of the final summary (the duration is left out).\<close>

record summary =
  databases_processed :: nat
  total_objects :: nat
  total_deletions :: nat

definition sync_and_commit ::
  "environ \<Rightarrow> server \<Rightarrow> error + (string \<times> string) list \<Rightarrow> project
     \<Rightarrow> (string set \<Rightarrow> string list) \<Rightarrow> string \<Rightarrow> string list \<Rightarrow> (error + summary) \<times> project" where
  \<comment> \<open>steps 3 to 6 of \<open>main\<close>, for the databases the run has resolved: fetch the
      existing files (an error that \<open>get_existing_files\<close> raises ends the run), process
      each database, commit, and sum up\<close>
  "sync_and_commit env srv tree proj iter timestamp databases =
     (case get_existing_files tree of
        Inl e \<Rightarrow> (Inl e, proj)
      | Inr existing \<Rightarrow>
        let st = foldl (process_database srv iter)
                   \<lparr>all_actions = [], db_stats = [], tracked = existing\<rparr> databases;
            commit_msg = ''mssql sync: '' @ timestamp;
            objects = sum_list (map (\<lambda>s. fst (snd s)) (db_stats st));
            dels = sum_list (map (\<lambda>s. snd (snd s)) (db_stats st))
        in (case commit_to_gitlab proj (all_actions st) (env_GITLAB_BRANCH env) commit_msg of
              (Inl e, proj') \<Rightarrow> (Inl e, proj')
            | (Inr c, proj') \<Rightarrow>
                (Inr \<lparr>databases_processed = length (db_stats st), total_objects = objects,
                      total_deletions = dels\<rparr>, proj')))"

definition main ::
  "environ \<Rightarrow> server \<Rightarrow> error option \<Rightarrow> error + (string \<times> string) list \<Rightarrow> project
     \<Rightarrow> (string set \<Rightarrow> string list) \<Rightarrow> string \<Rightarrow> (error + summary) \<times> project" where
  \<comment> \<open>\<open>gitlab\<close> is what \<open>connect_gitlab\<close> raises, if anything, \<open>tree\<close> the answer of
      \<open>repository_tree\<close>, \<open>timestamp\<close> the time of the commit as text. \<open>Inl\<close> is the
      exception the run ends with.\<close>
  "main env srv gitlab tree proj iter timestamp =
     (case server_connect srv of
        Some e \<Rightarrow> (Inl e, proj)
      | None \<Rightarrow>
     (case get_databases env (server_databases srv) of
        Inl e \<Rightarrow> (Inl e, proj)
      | Inr databases \<Rightarrow>
     (case gitlab of
        Some e \<Rightarrow> (Inl e, proj)
      | None \<Rightarrow> sync_and_commit env srv tree proj iter timestamp databases)))"

section \<open>Notions the statements use\<close>

definition paths_of :: "string \<Rightarrow> commit_action list \<Rightarrow> string set" where
  \<comment> \<open>the paths of the actions of one kind\<close>
  "paths_of kind acts = set (map file_path (filter (\<lambda>a. action a = kind) acts))"

definition computed_paths :: "string \<Rightarrow> proc_row list \<Rightarrow> table_row list \<Rightarrow> string set" where
  \<comment> \<open>the paths computed for the objects and the tables of one run\<close>
  "computed_paths database_name procs tables =
     set (map (object_path database_name) procs) \<union> set (map (table_path database_name) tables)"

definition ascending :: "string set \<Rightarrow> string list" where
  \<comment> \<open>one iteration order: the members in ascending order\<close>
  "ascending S = sorted_list_of_set S"

definition descending :: "string set \<Rightarrow> string list" where
  \<comment> \<open>another iteration order: the members in descending order\<close>
  "descending S = rev (sorted_list_of_set S)"












section \<open>The diff engine: what \<open>prepare_commit_actions\<close> returns\<close>

lemma foldl_proc_step:
  "foldl (proc_step db) fr rows =
     fr\<lparr>current_files := current_files fr \<union> set (map (object_path db) rows),
        actions := actions fr @
          map (\<lambda>row. \<lparr>action = (if object_path db row \<in> existing_files fr
                                   then ''update'' else ''create''),
                      file_path = object_path db row,
                      content = Some (or_empty (snd (snd (snd row))))\<rparr>) rows\<rparr>"
  by (induction rows arbitrary: fr) (simp_all add: proc_step_def Let_def)

lemma foldl_table_step:
  "foldl (table_step db) fr rows =
     fr\<lparr>current_files := current_files fr \<union> set (map (table_path db) rows),
        actions := actions fr @
          map (\<lambda>row. \<lparr>action = (if table_path db row \<in> existing_files fr
                                   then ''update'' else ''create''),
                      file_path = table_path db row,
                      content = Some (or_empty (snd (snd row)))\<rparr>) rows\<rparr>"
  by (induction rows arbitrary: fr) (simp_all add: table_step_def Let_def)

lemma foldl_delete_step:
  "foldl delete_step fr ps =
     fr\<lparr>actions := actions fr @
          map (\<lambda>p. \<lparr>action = ''delete'', file_path = p, content = None\<rparr>) ps\<rparr>"
  by (induction ps arbitrary: fr) (simp_all add: delete_step_def)

lemma run_prepare_commit_actions_enter:
  "run_prepare_commit_actions iter db (enter procs tables existing) =
     (\<lparr>proc_rows = procs, table_rows = tables, existing_files = existing,
       actions =
         map (\<lambda>row. \<lparr>action = (if object_path db row \<in> existing then ''update'' else ''create''),
                     file_path = object_path db row,
                     content = Some (or_empty (snd (snd (snd row))))\<rparr>) procs @
         map (\<lambda>row. \<lparr>action = (if table_path db row \<in> existing then ''update'' else ''create''),
                     file_path = table_path db row,
                     content = Some (or_empty (snd (snd row)))\<rparr>) tables @
         map (\<lambda>p. \<lparr>action = ''delete'', file_path = p, content = None\<rparr>)
           (iter (Set.filter (\<lambda>f. startswith f (db @ ''/'')) existing
                    - computed_paths db procs tables)),
       current_files = computed_paths db procs tables\<rparr>,
      length procs + length tables,
      card (Set.filter (\<lambda>f. startswith f (db @ ''/'')) existing
              - computed_paths db procs tables))"
  by (simp add: run_prepare_commit_actions_def enter_def Let_def foldl_proc_step
      foldl_table_step foldl_delete_step computed_paths_def)

lemma prepare_commit_actions_eq:
  "prepare_commit_actions iter db procs tables existing =
     (map (\<lambda>row. \<lparr>action = (if object_path db row \<in> existing then ''update'' else ''create''),
                  file_path = object_path db row,
                  content = Some (or_empty (snd (snd (snd row))))\<rparr>) procs @
      map (\<lambda>row. \<lparr>action = (if table_path db row \<in> existing then ''update'' else ''create''),
                  file_path = table_path db row,
                  content = Some (or_empty (snd (snd row)))\<rparr>) tables @
      map (\<lambda>p. \<lparr>action = ''delete'', file_path = p, content = None\<rparr>)
        (iter (Set.filter (\<lambda>f. startswith f (db @ ''/'')) existing
                 - computed_paths db procs tables)),
      length procs + length tables,
      card (Set.filter (\<lambda>f. startswith f (db @ ''/'')) existing
              - computed_paths db procs tables))"
  by (simp add: prepare_commit_actions_def run_prepare_commit_actions_enter)

lemma delete_paths_eq:
  "paths_of ''delete'' (fst (prepare_commit_actions iter db procs tables existing)) =
     set (iter (Set.filter (\<lambda>f. startswith f (db @ ''/'')) existing
                  - computed_paths db procs tables))"
  by (auto simp add: prepare_commit_actions_eq paths_of_def)

lemma enumerates_set: "enumerates iter \<Longrightarrow> finite S \<Longrightarrow> set (iter S) = S"
  by (simp add: enumerates_def)

lemma enumerates_distinct: "enumerates iter \<Longrightarrow> finite S \<Longrightarrow> distinct (iter S)"
  by (simp add: enumerates_def)

lemma enumerates_ascending: "enumerates ascending"
  by (simp add: enumerates_def ascending_def)

lemma enumerates_descending: "enumerates descending"
  by (simp add: enumerates_def descending_def)

lemma startswith_append: "startswith f p \<longleftrightarrow> (\<exists>r. f = p @ r)"
  unfolding startswith_def by (metis append_eq_conv_conj append_take_drop_id)

lemma startswith_slash_free:
  assumes "startswith f (M @ ''/'')" and "startswith f (N @ ''/'')"
    and "CHR ''/'' \<notin> set M" and "CHR ''/'' \<notin> set N"
  shows "M = N"
proof -
  obtain r where r: "f = M @ CHR ''/'' # r"
    using assms(1) by (auto simp add: startswith_append)
  obtain t where t: "f = N @ CHR ''/'' # t"
    using assms(2) by (auto simp add: startswith_append)
  have "takeWhile (\<lambda>c. c \<noteq> CHR ''/'') (M @ CHR ''/'' # r) = M"
    using assms(3) by (subst takeWhile_append2) auto
  moreover have "takeWhile (\<lambda>c. c \<noteq> CHR ''/'') (N @ CHR ''/'' # t) = N"
    using assms(4) by (subst takeWhile_append2) auto
  ultimately show ?thesis using r t by metis
qed

text \<open>
  C1. The paths with a delete action are existing paths under the prefix of the namespace, and
  none of them is a path computed for an object or a table of this run. So a path outside the
  prefix is never deleted; in particular none under the prefix of another namespace, the names
  being free of the separator.
\<close>

theorem delete_actions_within_namespace:
  assumes "enumerates iter" and "finite existing"
  shows "paths_of ''delete'' (fst (prepare_commit_actions iter N procs tables existing))
           \<subseteq> {f \<in> existing. startswith f (N @ ''/'')}
       \<and> paths_of ''delete'' (fst (prepare_commit_actions iter N procs tables existing))
           \<inter> computed_paths N procs tables = {}
       \<and> (\<forall>f. \<not> startswith f (N @ ''/'') \<longrightarrow>
             f \<notin> paths_of ''delete'' (fst (prepare_commit_actions iter N procs tables existing)))
       \<and> (\<forall>M f. M \<noteq> N \<and> CHR ''/'' \<notin> set M \<and> CHR ''/'' \<notin> set N \<and> startswith f (M @ ''/'') \<longrightarrow>
             f \<notin> paths_of ''delete'' (fst (prepare_commit_actions iter N procs tables existing)))"
proof -
  let ?D = "Set.filter (\<lambda>f. startswith f (N @ ''/'')) existing - computed_paths N procs tables"
  have "finite ?D" using assms(2) by simp
  then have eq: "paths_of ''delete'' (fst (prepare_commit_actions iter N procs tables existing)) = ?D"
    using assms(1) by (simp add: delete_paths_eq enumerates_set)
  show ?thesis
    unfolding eq using startswith_slash_free by auto
qed

theorem delete_actions_within_namespace_witness:
  "enumerates ascending
   \<and> finite {''db1/procedures/dbo.Old.sql'', ''db1/tables/dbo.Users.sql'', ''db2/tables/dbo.Keep.sql''}
   \<and> prepare_commit_actions ascending ''db1'' [] [(''dbo'', ''Users'', Some ''CREATE TABLE'')]
          {''db1/procedures/dbo.Old.sql'', ''db1/tables/dbo.Users.sql'', ''db2/tables/dbo.Keep.sql''}
       = ([\<lparr>action = ''update'', file_path = ''db1/tables/dbo.Users.sql'',
            content = Some ''CREATE TABLE''\<rparr>,
           \<lparr>action = ''delete'', file_path = ''db1/procedures/dbo.Old.sql'', content = None\<rparr>],
          1, 1)
   \<and> paths_of ''delete'' (fst (prepare_commit_actions ascending ''db1'' []
          [(''dbo'', ''Users'', Some ''CREATE TABLE'')]
          {''db1/procedures/dbo.Old.sql'', ''db1/tables/dbo.Users.sql'', ''db2/tables/dbo.Keep.sql''}))
       \<subseteq> {f \<in> {''db1/procedures/dbo.Old.sql'', ''db1/tables/dbo.Users.sql'',
                   ''db2/tables/dbo.Keep.sql''}. startswith f (''db1'' @ ''/'')}
   \<and> paths_of ''delete'' (fst (prepare_commit_actions ascending ''db1'' []
          [(''dbo'', ''Users'', Some ''CREATE TABLE'')]
          {''db1/procedures/dbo.Old.sql'', ''db1/tables/dbo.Users.sql'', ''db2/tables/dbo.Keep.sql''}))
       \<inter> computed_paths ''db1'' [] [(''dbo'', ''Users'', Some ''CREATE TABLE'')] = {}"
proof -
  let ?ex = "{''db1/procedures/dbo.Old.sql'', ''db1/tables/dbo.Users.sql'', ''db2/tables/dbo.Keep.sql''}"
  have fin: "finite ?ex" by simp
  have run: "prepare_commit_actions ascending ''db1'' [] [(''dbo'', ''Users'', Some ''CREATE TABLE'')] ?ex
       = ([\<lparr>action = ''update'', file_path = ''db1/tables/dbo.Users.sql'',
            content = Some ''CREATE TABLE''\<rparr>,
           \<lparr>action = ''delete'', file_path = ''db1/procedures/dbo.Old.sql'', content = None\<rparr>],
          1, 1)"
    by code_simp
  show ?thesis
    using delete_actions_within_namespace [OF enumerates_ascending fin, of "''db1''" "[]"
        "[(''dbo'', ''Users'', Some ''CREATE TABLE'')]"]
      enumerates_ascending fin run
    by blast
qed

lemma type_folder_cases:
  "dict_get TYPE_FOLDERS k ''procedures'' =
     (if k = ''V'' then ''views''
      else if k \<in> {''FN'', ''IF'', ''TF'', ''TR''} then ''others''
      else ''procedures'')"
  by (simp add: dict_get_def TYPE_FOLDERS_def)

text \<open>
  C4. The action list starts with one action for each object row, in the order of the rows,
  then one for each table row; every later action is a delete. The action of a row has the
  path of the row, under the folder of its kind (\<open>procedures\<close> for a kind that is not
  mapped), is an update when the path is an existing file and a create otherwise, and carries
  the definition or the DDL of the row, the empty string when that is null.
\<close>

theorem create_or_update_per_row:
  "let acts = fst (prepare_commit_actions iter N procs tables existing) in
     length procs + length tables \<le> length acts
   \<and> (\<forall>i < length procs.
        case procs ! i of (schema_name, object_name, object_type, defn) \<Rightarrow>
          let folder = (if strip object_type = ''V'' then ''views''
                        else if strip object_type \<in> {''FN'', ''IF'', ''TF'', ''TR''} then ''others''
                        else ''procedures'');
              path = N @ ''/'' @ folder @ ''/'' @ schema_name @ ''.'' @ object_name @ ''.sql''
          in acts ! i =
               \<lparr>action = (if path \<in> existing then ''update'' else ''create''),
                file_path = path,
                content = Some (case defn of None \<Rightarrow> '''' | Some d \<Rightarrow> d)\<rparr>)
   \<and> (\<forall>j < length tables.
        case tables ! j of (schema_name, table_name, ddl) \<Rightarrow>
          let path = N @ ''/tables/'' @ schema_name @ ''.'' @ table_name @ ''.sql''
          in acts ! (length procs + j) =
               \<lparr>action = (if path \<in> existing then ''update'' else ''create''),
                file_path = path,
                content = Some (case ddl of None \<Rightarrow> '''' | Some d \<Rightarrow> d)\<rparr>)
   \<and> (\<forall>k. length procs + length tables \<le> k \<and> k < length acts \<longrightarrow>
          action (acts ! k) = ''delete'')"
proof -
  let ?up = "\<lambda>row. \<lparr>action = (if object_path N row \<in> existing then ''update'' else ''create''),
                  file_path = object_path N row,
                  content = Some (or_empty (snd (snd (snd row))))\<rparr>"
  let ?ut = "\<lambda>row. \<lparr>action = (if table_path N row \<in> existing then ''update'' else ''create''),
                  file_path = table_path N row,
                  content = Some (or_empty (snd (snd row)))\<rparr>"
  let ?del = "\<lambda>p. \<lparr>action = ''delete'', file_path = p, content = None\<rparr>"
  let ?D = "iter (Set.filter (\<lambda>f. startswith f (N @ ''/'')) existing - computed_paths N procs tables)"
  let ?acts = "fst (prepare_commit_actions iter N procs tables existing)"
  have acts: "?acts = map ?up procs @ map ?ut tables @ map ?del ?D"
    by (simp add: prepare_commit_actions_eq)
  have len: "length procs + length tables \<le> length ?acts"
    by (simp add: acts)
  have p: "?acts ! i = ?up (procs ! i)" if "i < length procs" for i
    using that by (simp add: acts nth_append)
  have t: "?acts ! (length procs + j) = ?ut (tables ! j)" if "j < length tables" for j
    using that by (simp add: acts nth_append)
  have d: "action (?acts ! k) = ''delete''"
    if "length procs + length tables \<le> k" and "k < length ?acts" for k
  proof -
    have "?acts ! k = map ?del ?D ! (k - length procs - length tables)"
      using that(1) by (simp add: acts nth_append)
    moreover have "k - length procs - length tables < length ?D"
      using that by (simp add: acts)
    ultimately show ?thesis by simp
  qed
  have p': "case procs ! i of (schema_name, object_name, object_type, defn) \<Rightarrow>
          let folder = (if strip object_type = ''V'' then ''views''
                        else if strip object_type \<in> {''FN'', ''IF'', ''TF'', ''TR''} then ''others''
                        else ''procedures'');
              path = N @ ''/'' @ folder @ ''/'' @ schema_name @ ''.'' @ object_name @ ''.sql''
          in ?acts ! i =
               \<lparr>action = (if path \<in> existing then ''update'' else ''create''),
                file_path = path,
                content = Some (case defn of None \<Rightarrow> '''' | Some d \<Rightarrow> d)\<rparr>"
    if "i < length procs" for i
    unfolding p [OF that]
    by (cases "procs ! i") (simp add: object_path_def type_folder_cases or_empty_def Let_def)
  have t': "case tables ! j of (schema_name, table_name, ddl) \<Rightarrow>
          let path = N @ ''/tables/'' @ schema_name @ ''.'' @ table_name @ ''.sql''
          in ?acts ! (length procs + j) =
               \<lparr>action = (if path \<in> existing then ''update'' else ''create''),
                file_path = path,
                content = Some (case ddl of None \<Rightarrow> '''' | Some d \<Rightarrow> d)\<rparr>"
    if "j < length tables" for j
    unfolding t [OF that]
    by (cases "tables ! j") (simp add: table_path_def or_empty_def Let_def)
  show ?thesis
    unfolding Let_def [of ?acts] using len p' t' d by blast
qed

theorem create_or_update_per_row_witness:
  "fst (prepare_commit_actions ascending ''db1''
          [(''dbo'', ''GetUsers'', ''P '', Some ''CREATE OR ALTER PROCEDURE dbo.GetUsers AS SELECT 1'')]
          [(''dbo'', ''Users'', None)] {''db1/tables/dbo.Users.sql''}) ! 0
     = \<lparr>action = ''create'', file_path = ''db1/procedures/dbo.GetUsers.sql'',
        content = Some ''CREATE OR ALTER PROCEDURE dbo.GetUsers AS SELECT 1''\<rparr>
   \<and> fst (prepare_commit_actions ascending ''db1''
          [(''dbo'', ''GetUsers'', ''P '', Some ''CREATE OR ALTER PROCEDURE dbo.GetUsers AS SELECT 1'')]
          [(''dbo'', ''Users'', None)] {''db1/tables/dbo.Users.sql''}) ! 1
     = \<lparr>action = ''update'', file_path = ''db1/tables/dbo.Users.sql'', content = Some ''''\<rparr>"
proof -
  have s: "strip ''P '' = ''P''"
    by code_simp
  show ?thesis
    using create_or_update_per_row [of ascending "''db1''"
        "[(''dbo'', ''GetUsers'', ''P '', Some ''CREATE OR ALTER PROCEDURE dbo.GetUsers AS SELECT 1'')]"
        "[(''dbo'', ''Users'', None)]" "{''db1/tables/dbo.Users.sql''}"]
    by (simp add: Let_def s)
qed

text \<open>
  C6. When the existing files under the prefix of the namespace are exactly the paths computed
  for this run, every action is an update: there are as many actions as rows, none is a create
  and none a delete, and the count of deletions is zero.
\<close>

theorem round_trip_only_updates:
  assumes "enumerates iter"
    and "Set.filter (\<lambda>f. startswith f (N @ ''/'')) existing = computed_paths N procs tables"
  shows "list_all (\<lambda>a. action a = ''update'')
           (fst (prepare_commit_actions iter N procs tables existing))
       \<and> length (fst (prepare_commit_actions iter N procs tables existing))
           = length procs + length tables
       \<and> paths_of ''create'' (fst (prepare_commit_actions iter N procs tables existing)) = {}
       \<and> paths_of ''delete'' (fst (prepare_commit_actions iter N procs tables existing)) = {}
       \<and> snd (snd (prepare_commit_actions iter N procs tables existing)) = 0"
proof -
  have empty: "Set.filter (\<lambda>f. startswith f (N @ ''/'')) existing - computed_paths N procs tables = {}"
    using assms(2) by simp
  have "set (iter {}) = {}"
    using assms(1) by (simp add: enumerates_set)
  then have nil: "iter {} = []" by simp
  have po: "object_path N row \<in> existing" if "row \<in> set procs" for row
  proof -
    have "object_path N row \<in> computed_paths N procs tables"
      using that by (simp add: computed_paths_def)
    then show ?thesis using assms(2) by auto
  qed
  have pt: "table_path N row \<in> existing" if "row \<in> set tables" for row
  proof -
    have "table_path N row \<in> computed_paths N procs tables"
      using that by (simp add: computed_paths_def)
    then show ?thesis using assms(2) by auto
  qed
  show ?thesis
    unfolding prepare_commit_actions_eq empty nil
    by (auto simp add: list_all_iff po pt paths_of_def filter_empty_conv)
qed

theorem round_trip_only_updates_witness:
  "enumerates ascending
   \<and> Set.filter (\<lambda>f. startswith f (''db1'' @ ''/''))
         {''db1/procedures/dbo.GetUsers.sql'', ''db1/tables/dbo.Users.sql'', ''db2/tables/dbo.Keep.sql''}
       = computed_paths ''db1'' [(''dbo'', ''GetUsers'', ''P '', Some ''CREATE OR ALTER PROCEDURE p'')]
           [(''dbo'', ''Users'', Some ''CREATE TABLE'')]
   \<and> list_all (\<lambda>a. action a = ''update'')
         (fst (prepare_commit_actions ascending ''db1''
            [(''dbo'', ''GetUsers'', ''P '', Some ''CREATE OR ALTER PROCEDURE p'')]
            [(''dbo'', ''Users'', Some ''CREATE TABLE'')]
            {''db1/procedures/dbo.GetUsers.sql'', ''db1/tables/dbo.Users.sql'',
             ''db2/tables/dbo.Keep.sql''}))
   \<and> length (fst (prepare_commit_actions ascending ''db1''
            [(''dbo'', ''GetUsers'', ''P '', Some ''CREATE OR ALTER PROCEDURE p'')]
            [(''dbo'', ''Users'', Some ''CREATE TABLE'')]
            {''db1/procedures/dbo.GetUsers.sql'', ''db1/tables/dbo.Users.sql'',
             ''db2/tables/dbo.Keep.sql''})) = 2"
proof -
  have h: "Set.filter (\<lambda>f. startswith f (''db1'' @ ''/''))
         {''db1/procedures/dbo.GetUsers.sql'', ''db1/tables/dbo.Users.sql'', ''db2/tables/dbo.Keep.sql''}
       = computed_paths ''db1'' [(''dbo'', ''GetUsers'', ''P '', Some ''CREATE OR ALTER PROCEDURE p'')]
           [(''dbo'', ''Users'', Some ''CREATE TABLE'')]"
    by code_simp
  show ?thesis
    using round_trip_only_updates [OF enumerates_ascending h] enumerates_ascending h
    by simp
qed

text \<open>
  C8, as stated, fails: the delete actions come in the order in which the set of deleted
  files is iterated, and two iteration orders give two action lists.
\<close>

theorem action_order_counterexample:
  "enumerates ascending \<and> enumerates descending
   \<and> fst (prepare_commit_actions ascending ''db1'' [] []
            {''db1/tables/dbo.A.sql'', ''db1/tables/dbo.B.sql''})
       = [\<lparr>action = ''delete'', file_path = ''db1/tables/dbo.A.sql'', content = None\<rparr>,
          \<lparr>action = ''delete'', file_path = ''db1/tables/dbo.B.sql'', content = None\<rparr>]
   \<and> fst (prepare_commit_actions descending ''db1'' [] []
            {''db1/tables/dbo.A.sql'', ''db1/tables/dbo.B.sql''})
       = [\<lparr>action = ''delete'', file_path = ''db1/tables/dbo.B.sql'', content = None\<rparr>,
          \<lparr>action = ''delete'', file_path = ''db1/tables/dbo.A.sql'', content = None\<rparr>]
   \<and> fst (prepare_commit_actions ascending ''db1'' [] []
            {''db1/tables/dbo.A.sql'', ''db1/tables/dbo.B.sql''})
       \<noteq> fst (prepare_commit_actions descending ''db1'' [] []
            {''db1/tables/dbo.A.sql'', ''db1/tables/dbo.B.sql''})"
proof -
  have a: "fst (prepare_commit_actions ascending ''db1'' [] []
            {''db1/tables/dbo.A.sql'', ''db1/tables/dbo.B.sql''})
       = [\<lparr>action = ''delete'', file_path = ''db1/tables/dbo.A.sql'', content = None\<rparr>,
          \<lparr>action = ''delete'', file_path = ''db1/tables/dbo.B.sql'', content = None\<rparr>]"
    by code_simp
  have d: "fst (prepare_commit_actions descending ''db1'' [] []
            {''db1/tables/dbo.A.sql'', ''db1/tables/dbo.B.sql''})
       = [\<lparr>action = ''delete'', file_path = ''db1/tables/dbo.B.sql'', content = None\<rparr>,
          \<lparr>action = ''delete'', file_path = ''db1/tables/dbo.A.sql'', content = None\<rparr>]"
    by code_simp
  show ?thesis
    unfolding a d using enumerates_ascending enumerates_descending by simp
qed

text \<open>
  C8, amended. The action list is a function of the rows, the existing files and the iteration
  order of sets. Under any two iteration orders the create and update actions are the same, in
  the same order, at the start of the list; the two lists have the same actions, each as often
  (the delete actions may come in another order); and the two counts are the same.
\<close>

theorem action_list_up_to_delete_order:
  assumes "enumerates iter1" and "enumerates iter2" and "finite existing"
  shows "take (length procs + length tables)
           (fst (prepare_commit_actions iter1 N procs tables existing))
         = take (length procs + length tables)
             (fst (prepare_commit_actions iter2 N procs tables existing))
       \<and> mset (fst (prepare_commit_actions iter1 N procs tables existing))
         = mset (fst (prepare_commit_actions iter2 N procs tables existing))
       \<and> snd (prepare_commit_actions iter1 N procs tables existing)
         = snd (prepare_commit_actions iter2 N procs tables existing)"
proof -
  let ?D = "Set.filter (\<lambda>f. startswith f (N @ ''/'')) existing - computed_paths N procs tables"
  have fin: "finite ?D" using assms(3) by simp
  have "set (iter1 ?D) = set (iter2 ?D)"
    using assms(1,2) fin by (simp add: enumerates_set)
  moreover have "distinct (iter1 ?D)" and "distinct (iter2 ?D)"
    using assms(1,2) fin by (simp_all add: enumerates_distinct)
  ultimately have "mset (iter1 ?D) = mset (iter2 ?D)"
    by (simp add: set_eq_iff_mset_eq_distinct)
  then have "mset (map (\<lambda>p. \<lparr>action = ''delete'', file_path = p, content = None\<rparr>) (iter1 ?D))
           = mset (map (\<lambda>p. \<lparr>action = ''delete'', file_path = p, content = None\<rparr>) (iter2 ?D))"
    by (simp only: mset_map)
  then show ?thesis
    unfolding prepare_commit_actions_eq fst_conv snd_conv
    by (simp only: take_append length_map mset_append take_all diff_self_eq_0 take0
        append_Nil2 order_refl minus_nat.diff_0 add_diff_cancel_left' simp_thms)
qed

theorem action_list_up_to_delete_order_witness:
  "enumerates ascending \<and> enumerates descending
   \<and> finite {''db1/tables/dbo.A.sql'', ''db1/tables/dbo.B.sql''}
   \<and> mset (fst (prepare_commit_actions ascending ''db1'' [] []
              {''db1/tables/dbo.A.sql'', ''db1/tables/dbo.B.sql''}))
     = mset (fst (prepare_commit_actions descending ''db1'' [] []
              {''db1/tables/dbo.A.sql'', ''db1/tables/dbo.B.sql''}))
   \<and> snd (prepare_commit_actions ascending ''db1'' [] []
              {''db1/tables/dbo.A.sql'', ''db1/tables/dbo.B.sql''})
     = snd (prepare_commit_actions descending ''db1'' [] []
              {''db1/tables/dbo.A.sql'', ''db1/tables/dbo.B.sql''})"
proof -
  have fin: "finite {''db1/tables/dbo.A.sql'', ''db1/tables/dbo.B.sql''}" by simp
  show ?thesis
    using action_list_up_to_delete_order [OF enumerates_ascending enumerates_descending fin,
        of "[]" "[]" "''db1''"]
      enumerates_ascending enumerates_descending fin
    by (simp only: simp_thms)
qed

text \<open>
  C10. A call of \<open>prepare_commit_actions\<close> leaves its three container arguments as they were:
  at the return, the set of existing files and the two lists of rows hold what they held on
  entry. So in the loop of \<open>main\<close> the set of existing files stays the one fetched before the
  loop, and what a database adds to the actions is what it adds when it is processed alone on
  that set, whatever was processed before it.
\<close>

theorem arguments_not_mutated:
  "existing_files (fst (run_prepare_commit_actions iter N (enter procs tables existing)))
     = existing
   \<and> proc_rows (fst (run_prepare_commit_actions iter N (enter procs tables existing))) = procs
   \<and> table_rows (fst (run_prepare_commit_actions iter N (enter procs tables existing))) = tables
   \<and> tracked (foldl (process_database srv iter) st dbs) = tracked st
   \<and> all_actions (foldl (process_database srv iter) st dbs)
       = all_actions st @
         concat (map (\<lambda>db. all_actions (process_database srv iter
                   \<lparr>all_actions = [], db_stats = [], tracked = tracked st\<rparr> db)) dbs)"
proof -
  have tr: "tracked (process_database srv iter s db) = tracked s" for s db
    by (simp add: process_database_def run_prepare_commit_actions_enter
        split: option.splits sum.splits)
  have acts: "all_actions (process_database srv iter s db)
      = all_actions s @ all_actions (process_database srv iter
          \<lparr>all_actions = [], db_stats = [], tracked = tracked s\<rparr> db)" for s db
    by (simp add: process_database_def run_prepare_commit_actions_enter
        split: option.splits sum.splits)
  have loop: "tracked (foldl (process_database srv iter) s dbs) = tracked s
      \<and> all_actions (foldl (process_database srv iter) s dbs)
       = all_actions s @
         concat (map (\<lambda>db. all_actions (process_database srv iter
                   \<lparr>all_actions = [], db_stats = [], tracked = tracked s\<rparr> db)) dbs)" for s
  proof (induction dbs arbitrary: s)
    case Nil
    show ?case by simp
  next
    case (Cons db dbs)
    show ?case
      using Cons.IH [of "process_database srv iter s db"] acts [of s db]
      by (simp add: tr)
  qed
  show ?thesis
    using loop [of st] by (simp add: run_prepare_commit_actions_enter)
qed

section \<open>The run: resolution, failures and the commit\<close>

lemma split_not_Nil: "split sep s \<noteq> []"
  by (induction s) (auto split: list.splits)

lemma DATABASES_not_Nil: "DATABASES env \<noteq> []"
  by (simp add: DATABASES_def split_not_Nil split: option.splits)

lemma sync_and_commit_Nil:
  "get_existing_files tree = Inr existing \<Longrightarrow>
   sync_and_commit env srv tree proj iter timestamp [] =
     (Inr \<lparr>databases_processed = 0, total_objects = 0, total_deletions = 0\<rparr>, proj)"
  by (simp add: sync_and_commit_def commit_to_gitlab_def)

lemma sync_and_commit_raises:
  "get_existing_files tree = Inl e \<Longrightarrow>
   sync_and_commit env srv tree proj iter timestamp dbs = (Inl e, proj)"
  by (simp add: sync_and_commit_def)

text \<open>
  C3, as stated, fails: in the mode \<open>all\<close>, with a server that reports no database, the
  resolved list is empty and the run goes on to its normal end.
\<close>

theorem empty_resolution_counterexample:
  "get_databases
     \<lparr>env_DATABASE_MODE = Some ''all'', env_DATABASES = None, env_EXCLUDE_DATABASES = None,
      env_GITLAB_BRANCH = Some ''main''\<rparr> (Inr []) = Inr []
   \<and> main
       \<lparr>env_DATABASE_MODE = Some ''all'', env_DATABASES = None, env_EXCLUDE_DATABASES = None,
        env_GITLAB_BRANCH = Some ''main''\<rparr>
       \<lparr>server_connect = None, server_databases = Inr [],
        database_connect = (\<lambda>db. None), database_objects = (\<lambda>db. Inr []),
        database_tables = (\<lambda>db. Inr [])\<rparr>
       None (Inr []) \<lparr>create = (\<lambda>data. Inl GitlabCreateError), requests = []\<rparr>
       ascending ''2025-11-22 23:55:00''
     = (Inr \<lparr>databases_processed = 0, total_objects = 0, total_deletions = 0\<rparr>,
        \<lparr>create = (\<lambda>data. Inl GitlabCreateError), requests = []\<rparr>)"
proof -
  have "get_existing_files (Inr []) = Inr {}"
    by (simp add: get_existing_files_def)
  then show ?thesis
    by (simp add: get_databases_def DATABASE_MODE_def main_def sync_and_commit_Nil)
qed

text \<open>
  C3, amended. In the mode \<open>specific\<close> the resolved list is never empty. In the modes \<open>all\<close>
  and \<open>all_except\<close> it is empty when the server reports no database, or none that is not
  excluded; \<open>get_databases\<close> then returns the empty list, and a run that has its connections
  and its list of existing files goes on: it processes no database, submits no commit and ends
  normally with zero totals. \<open>get_databases\<close> raises only when the query fails or the mode is
  not one of the three.
\<close>

theorem resolved_databases:
  "(DATABASE_MODE env = ''specific'' \<longrightarrow>
      (\<exists>db dbs. get_databases env cursor = Inr (db # dbs)))
   \<and> (DATABASE_MODE env = ''all'' \<longrightarrow> get_databases env (Inr all_dbs) = Inr all_dbs)
   \<and> (DATABASE_MODE env = ''all_except'' \<longrightarrow>
        get_databases env (Inr all_dbs)
          = Inr (filter (\<lambda>db. db \<notin> set (EXCLUDE_DATABASES env)) all_dbs))
   \<and> (get_databases env cursor = Inl e \<longrightarrow>
        DATABASE_MODE env \<noteq> ''specific''
        \<and> (cursor = Inl e
           \<or> e = ValueError \<and> DATABASE_MODE env \<noteq> ''all'' \<and> DATABASE_MODE env \<noteq> ''all_except''))
   \<and> (server_connect srv = None \<and> gitlab = None
        \<and> get_databases env (server_databases srv) = Inr []
        \<and> get_existing_files tree = Inr existing \<longrightarrow>
        main env srv gitlab tree proj iter timestamp
          = (Inr \<lparr>databases_processed = 0, total_objects = 0, total_deletions = 0\<rparr>, proj))"
proof -
  have a: "\<exists>db dbs. get_databases env cursor = Inr (db # dbs)"
    if "DATABASE_MODE env = ''specific''"
    using that DATABASES_not_Nil [of env]
    by (cases "DATABASES env") (simp_all add: get_databases_def)
  have b: "get_databases env (Inr all_dbs) = Inr all_dbs" if "DATABASE_MODE env = ''all''"
    using that by (simp add: get_databases_def)
  have c: "get_databases env (Inr all_dbs)
          = Inr (filter (\<lambda>db. db \<notin> set (EXCLUDE_DATABASES env)) all_dbs)"
    if "DATABASE_MODE env = ''all_except''"
    using that by (simp add: get_databases_def)
  have d: "DATABASE_MODE env \<noteq> ''specific''
        \<and> (cursor = Inl e
           \<or> e = ValueError \<and> DATABASE_MODE env \<noteq> ''all'' \<and> DATABASE_MODE env \<noteq> ''all_except'')"
    if "get_databases env cursor = Inl e"
    using that by (cases cursor) (auto simp add: get_databases_def split: if_splits)
  have m: "main env srv gitlab tree proj iter timestamp
          = (Inr \<lparr>databases_processed = 0, total_objects = 0, total_deletions = 0\<rparr>, proj)"
    if "server_connect srv = None \<and> gitlab = None
        \<and> get_databases env (server_databases srv) = Inr []
        \<and> get_existing_files tree = Inr existing"
    using that by (simp add: main_def sync_and_commit_Nil)
  show ?thesis
    using a b c d m by blast
qed

theorem resolved_databases_witness:
  "DATABASE_MODE \<lparr>env_DATABASE_MODE = None, env_DATABASES = Some ''sales,hr'',
       env_EXCLUDE_DATABASES = None, env_GITLAB_BRANCH = None\<rparr> = ''specific''
   \<and> get_databases \<lparr>env_DATABASE_MODE = None, env_DATABASES = Some ''sales,hr'',
       env_EXCLUDE_DATABASES = None, env_GITLAB_BRANCH = None\<rparr> (Inl PyodbcError)
       = Inr [''sales'', ''hr'']
   \<and> DATABASE_MODE \<lparr>env_DATABASE_MODE = Some ''all_except'', env_DATABASES = None,
       env_EXCLUDE_DATABASES = Some ''sales,hr'', env_GITLAB_BRANCH = None\<rparr> = ''all_except''
   \<and> get_databases \<lparr>env_DATABASE_MODE = Some ''all_except'', env_DATABASES = None,
       env_EXCLUDE_DATABASES = Some ''sales,hr'', env_GITLAB_BRANCH = None\<rparr>
       (Inr [''hr'', ''sales'']) = Inr []
   \<and> get_existing_files (Inl GitlabGetError) = Inr {}
   \<and> main \<lparr>env_DATABASE_MODE = Some ''all_except'', env_DATABASES = None,
         env_EXCLUDE_DATABASES = Some ''sales,hr'', env_GITLAB_BRANCH = None\<rparr>
       \<lparr>server_connect = None, server_databases = Inr [''hr'', ''sales''],
        database_connect = (\<lambda>db. None), database_objects = (\<lambda>db. Inr []),
        database_tables = (\<lambda>db. Inr [])\<rparr>
       None (Inl GitlabGetError) \<lparr>create = (\<lambda>data. Inl GitlabCreateError), requests = []\<rparr>
       ascending ''2025-11-22 23:55:00''
     = (Inr \<lparr>databases_processed = 0, total_objects = 0, total_deletions = 0\<rparr>,
        \<lparr>create = (\<lambda>data. Inl GitlabCreateError), requests = []\<rparr>)"
proof -
  let ?env = "\<lparr>env_DATABASE_MODE = None, env_DATABASES = Some ''sales,hr'',
       env_EXCLUDE_DATABASES = None, env_GITLAB_BRANCH = None\<rparr>"
  let ?env2 = "\<lparr>env_DATABASE_MODE = Some ''all_except'', env_DATABASES = None,
       env_EXCLUDE_DATABASES = Some ''sales,hr'', env_GITLAB_BRANCH = None\<rparr>"
  let ?srv = "\<lparr>server_connect = None, server_databases = Inr [''hr'', ''sales''],
        database_connect = (\<lambda>db. None), database_objects = (\<lambda>db. Inr []),
        database_tables = (\<lambda>db. Inr [])\<rparr>"
  let ?proj = "\<lparr>create = (\<lambda>data. Inl GitlabCreateError), requests = []\<rparr>"
  have mode: "DATABASE_MODE ?env = ''specific''"
    by (simp add: DATABASE_MODE_def)
  have dbs: "DATABASES ?env = [''sales'', ''hr'']"
    by code_simp
  have mode2: "DATABASE_MODE ?env2 = ''all_except''"
    by (simp add: DATABASE_MODE_def)
  have excl: "EXCLUDE_DATABASES ?env2 = [''sales'', ''hr'']"
    by code_simp
  obtain db dbs where "get_databases ?env (Inl PyodbcError) = Inr (db # dbs)"
    using resolved_databases [of ?env "Inl PyodbcError"] mode by blast
  then have one: "get_databases ?env (Inl PyodbcError) = Inr [''sales'', ''hr'']"
    using mode dbs by (simp add: get_databases_def)
  have "get_databases ?env2 (Inr [''hr'', ''sales''])
          = Inr (filter (\<lambda>db. db \<notin> set (EXCLUDE_DATABASES ?env2)) [''hr'', ''sales''])"
    using resolved_databases [of ?env2 _ "[''hr'', ''sales'']"] mode2 by blast
  then have two: "get_databases ?env2 (Inr [''hr'', ''sales'']) = Inr []"
    unfolding excl by simp
  have tree: "get_existing_files (Inl GitlabGetError) = Inr {}"
    by (simp add: get_existing_files_def)
  have "server_connect ?srv = None \<and> (None :: error option) = None
        \<and> get_databases ?env2 (server_databases ?srv) = Inr []
        \<and> get_existing_files (Inl GitlabGetError) = Inr {}"
    using two tree by simp
  then have three: "main ?env2 ?srv None (Inl GitlabGetError) ?proj ascending ''2025-11-22 23:55:00''
      = (Inr \<lparr>databases_processed = 0, total_objects = 0, total_deletions = 0\<rparr>, ?proj)"
    using resolved_databases [of ?env2 _ _ _ ?srv None "Inl GitlabGetError" "{}" ?proj ascending
        "''2025-11-22 23:55:00''"]
    by blast
  show ?thesis
    using mode one mode2 two tree three by (simp only: simp_thms)
qed

lemma commit_to_gitlab_requests:
  "requests (snd (commit_to_gitlab p a b m))
      = requests p @ (if a = [] then []
          else [\<lparr>data_branch = b, data_commit_message = m, data_actions = a\<rparr>])"
  by (simp add: commit_to_gitlab_def Let_def split: sum.splits)

lemma sync_and_commit_requests:
  assumes "get_existing_files tree = Inr existing"
  shows "requests (snd (sync_and_commit env srv tree proj iter timestamp dbs))
        = requests proj @
          (let merged = all_actions (foldl (process_database srv iter)
                 \<lparr>all_actions = [], db_stats = [], tracked = existing\<rparr> dbs)
           in if merged = [] then []
              else [\<lparr>data_branch = env_GITLAB_BRANCH env,
                     data_commit_message = ''mssql sync: '' @ timestamp,
                     data_actions = merged\<rparr>])"
proof -
  let ?st = "foldl (process_database srv iter)
               \<lparr>all_actions = [], db_stats = [], tracked = existing\<rparr> dbs"
  let ?r = "commit_to_gitlab proj (all_actions ?st) (env_GITLAB_BRANCH env)
              (''mssql sync: '' @ timestamp)"
  have "snd (sync_and_commit env srv tree proj iter timestamp dbs) = snd ?r"
    by (cases ?r; cases "fst ?r") (simp_all add: sync_and_commit_def assms Let_def)
  then show ?thesis
    by (simp only: commit_to_gitlab_requests Let_def)
qed

text \<open>
  C9. With no action, \<open>commit_to_gitlab\<close> returns at once and the project receives nothing.
  With actions, the project receives one request, whose actions are the whole list, whether the
  server accepts it or not. A run that has the list of existing files submits nothing when the
  loop has made no action, and otherwise one request with all the actions of the loop; a run
  that ends on an error of \<open>get_existing_files\<close> submits nothing. A run of \<open>main\<close> submits at
  most one request.
\<close>

theorem one_commit_request:
  "commit_to_gitlab proj [] branch commit_message = (Inr None, proj)
   \<and> (acts \<noteq> [] \<longrightarrow>
        requests (snd (commit_to_gitlab proj acts branch commit_message))
          = requests proj @
            [\<lparr>data_branch = branch, data_commit_message = commit_message, data_actions = acts\<rparr>])
   \<and> (get_existing_files tree = Inr existing \<longrightarrow>
        requests (snd (sync_and_commit env srv tree proj iter timestamp databases))
          = requests proj @
            (let merged = all_actions (foldl (process_database srv iter)
                   \<lparr>all_actions = [], db_stats = [], tracked = existing\<rparr> databases)
             in if merged = [] then []
                else [\<lparr>data_branch = env_GITLAB_BRANCH env,
                       data_commit_message = ''mssql sync: '' @ timestamp,
                       data_actions = merged\<rparr>]))
   \<and> (get_existing_files tree = Inl e \<longrightarrow>
        sync_and_commit env srv tree proj iter timestamp databases = (Inl e, proj))
   \<and> length (requests (snd (main env srv gitlab tree proj iter timestamp)))
        \<le> Suc (length (requests proj))"
proof -
  have nil: "commit_to_gitlab proj [] branch commit_message = (Inr None, proj)"
    by (simp add: commit_to_gitlab_def)
  have one: "requests (snd (commit_to_gitlab proj acts branch commit_message))
          = requests proj @
            [\<lparr>data_branch = branch, data_commit_message = commit_message, data_actions = acts\<rparr>]"
    if "acts \<noteq> []"
    using that by (simp add: commit_to_gitlab_requests)
  have len_sync: "length (requests (snd (sync_and_commit env srv tree proj iter timestamp dbs)))
        \<le> Suc (length (requests proj))" for dbs
  proof (cases "get_existing_files tree")
    case (Inl e)
    then show ?thesis by (simp add: sync_and_commit_raises)
  next
    case (Inr existing)
    then show ?thesis by (simp add: sync_and_commit_requests Let_def)
  qed
  have len: "length (requests (snd (main env srv gitlab tree proj iter timestamp)))
        \<le> Suc (length (requests proj))"
    using len_sync by (simp add: main_def split: option.splits sum.splits)
  show ?thesis
    using nil one sync_and_commit_requests [of tree existing env srv proj iter timestamp databases]
      sync_and_commit_raises [of tree e env srv proj iter timestamp databases] len
    by (simp only: simp_thms) simp
qed

theorem one_commit_request_witness:
  "requests (snd (commit_to_gitlab
       \<lparr>create = (\<lambda>data. Inl GitlabCreateError), requests = []\<rparr>
       [\<lparr>action = ''create'', file_path = ''db1/tables/dbo.Users.sql'', content = Some ''''\<rparr>]
       (Some ''main'') ''mssql sync: now''))
   = [\<lparr>data_branch = Some ''main'', data_commit_message = ''mssql sync: now'',
       data_actions =
         [\<lparr>action = ''create'', file_path = ''db1/tables/dbo.Users.sql'', content = Some ''''\<rparr>]\<rparr>]
   \<and> get_existing_files (Inl GitlabAuthenticationError) = Inl GitlabAuthenticationError
   \<and> sync_and_commit
        \<lparr>env_DATABASE_MODE = None, env_DATABASES = None, env_EXCLUDE_DATABASES = None,
         env_GITLAB_BRANCH = Some ''main''\<rparr>
        \<lparr>server_connect = None, server_databases = Inr [],
         database_connect = (\<lambda>db. None), database_objects = (\<lambda>db. Inr []),
         database_tables = (\<lambda>db. Inr [(''dbo'', ''Users'', Some ''CREATE TABLE'')])\<rparr>
        (Inl GitlabAuthenticationError)
        \<lparr>create = (\<lambda>data. Inl GitlabCreateError), requests = []\<rparr> ascending ''now'' [''db1'']
     = (Inl GitlabAuthenticationError,
        \<lparr>create = (\<lambda>data. Inl GitlabCreateError), requests = []\<rparr>)"
proof -
  let ?proj = "\<lparr>create = (\<lambda>data. Inl GitlabCreateError), requests = []\<rparr>"
  let ?acts = "[\<lparr>action = ''create'', file_path = ''db1/tables/dbo.Users.sql'', content = Some ''''\<rparr>]"
  have t: "get_existing_files (Inl GitlabAuthenticationError) = Inl GitlabAuthenticationError"
    by (simp add: get_existing_files_def)
  note w = one_commit_request [where proj = ?proj and acts = ?acts and branch = "Some ''main''"
      and commit_message = "''mssql sync: now''" and tree = "Inl GitlabAuthenticationError"
      and e = GitlabAuthenticationError and timestamp = "''now''" and databases = "[''db1'']"
      and iter = ascending]
  have a: "requests (snd (commit_to_gitlab ?proj ?acts (Some ''main'') ''mssql sync: now''))
      = requests ?proj @
        [\<lparr>data_branch = Some ''main'', data_commit_message = ''mssql sync: now'',
          data_actions = ?acts\<rparr>]"
    using w [THEN conjunct2, THEN conjunct1] by simp
  have b: "sync_and_commit env srv (Inl GitlabAuthenticationError) ?proj ascending ''now'' [''db1'']
      = (Inl GitlabAuthenticationError, ?proj)" for env srv
    using w [THEN conjunct2, THEN conjunct2, THEN conjunct2, THEN conjunct1] t by simp
  show ?thesis
    using a b t by simp
qed

lemma dict_set_keys: "fst ` set (dict_set d k v) = insert k (fst ` set d)"
  by (force simp add: dict_set_def split: if_splits)

lemma process_database_keys:
  "fst ` set (db_stats (process_database srv iter st db)) \<subseteq> insert db (fst ` set (db_stats st))"
  by (auto simp add: process_database_def run_prepare_commit_actions_enter dict_set_keys
      split: option.splits sum.splits)

lemma process_databases_keys:
  "fst ` set (db_stats (foldl (process_database srv iter) st dbs))
     \<subseteq> fst ` set (db_stats st) \<union> set dbs"
proof (induction dbs arbitrary: st)
  case Nil
  show ?case by simp
next
  case (Cons db dbs)
  show ?case
    using Cons.IH [of "process_database srv iter st db"] process_database_keys [of srv iter st db]
    by auto
qed

lemma process_database_failed:
  assumes "database_connect srv d = Some e \<or> database_objects srv d = Inl e
             \<or> database_tables srv d = Inl e"
  shows "process_database srv iter st d = st"
  using assms
  by (auto simp add: process_database_def fetch_database_objects_def fetch_table_ddl_def
      split: option.splits sum.splits)

lemma process_database_fetched:
  assumes "database_connect srv db = None" and "database_objects srv db = Inr rows"
    and "database_tables srv db = Inr tables"
  shows "process_database srv iter st db =
     \<lparr>all_actions = all_actions st
        @ fst (prepare_commit_actions iter db (map convert_row rows) tables (tracked st)),
      db_stats = dict_set (db_stats st) db
        (snd (prepare_commit_actions iter db (map convert_row rows) tables (tracked st))),
      tracked = tracked st\<rparr>"
  by (simp add: process_database_def assms fetch_database_objects_def fetch_table_ddl_def
      run_prepare_commit_actions_enter prepare_commit_actions_eq)

lemma process_databases_failed:
  assumes "database_connect srv d = Some e \<or> database_objects srv d = Inl e
             \<or> database_tables srv d = Inl e"
  shows "foldl (process_database srv iter) st dbs
           = foldl (process_database srv iter) st (filter (\<lambda>db. db \<noteq> d) dbs)"
  by (induction dbs arbitrary: st) (simp_all add: process_database_failed [OF assms])

lemma sync_and_commit_Inl:
  assumes "fst (sync_and_commit env srv tree proj iter timestamp dbs) = Inl e"
  shows "get_existing_files tree = Inl e \<or> (\<exists>data. create proj data = Inl e)"
proof (cases "get_existing_files tree")
  case (Inl e')
  then show ?thesis using assms by (simp add: sync_and_commit_raises)
next
  case (Inr existing)
  then show ?thesis
    using assms
    by (auto simp add: sync_and_commit_def commit_to_gitlab_def Let_def
        split: if_splits sum.splits)
qed

lemma sync_and_commit_Inr:
  assumes "get_existing_files tree = Inr existing" and "\<forall>data. \<exists>c. create proj data = Inr c"
  shows "fst (sync_and_commit env srv tree proj iter timestamp dbs) =
     (let st = foldl (process_database srv iter)
                 \<lparr>all_actions = [], db_stats = [], tracked = existing\<rparr> dbs
      in Inr \<lparr>databases_processed = length (db_stats st),
              total_objects = sum_list (map (\<lambda>s. fst (snd s)) (db_stats st)),
              total_deletions = sum_list (map (\<lambda>s. snd (snd s)) (db_stats st))\<rparr>)"
proof -
  let ?st = "foldl (process_database srv iter)
               \<lparr>all_actions = [], db_stats = [], tracked = existing\<rparr> dbs"
  let ?data = "\<lparr>data_branch = env_GITLAB_BRANCH env,
                data_commit_message = ''mssql sync: '' @ timestamp,
                data_actions = all_actions ?st\<rparr>"
  obtain c where "create proj ?data = Inr c" using assms(2) by blast
  then show ?thesis
    by (simp add: sync_and_commit_def assms(1) commit_to_gitlab_def Let_def)
qed

text \<open>
  C5. When the connection to a database or one of its two fetches raises, the loop of \<open>main\<close>
  leaves its state as it is for that database: it adds no action and no entry to the statistics,
  so the database counts for nothing in the totals. A database whose connection and fetches
  succeed adds the actions that \<open>prepare_commit_actions\<close> returns for its rows and its entry to
  the statistics. The loop is the loop over the other databases; with the list of existing
  files, the one commit request carries the actions of the other databases, and the run ends
  normally, with their totals, when the server accepts the request. The run ends on an error
  only when \<open>get_existing_files\<close> raises or the commit request is refused.
\<close>

theorem failed_database_is_skipped:
  assumes "database_connect srv d = Some e \<or> database_objects srv d = Inl e
             \<or> database_tables srv d = Inl e"
  shows "process_database srv iter st d = st
       \<and> foldl (process_database srv iter) st dbs
           = foldl (process_database srv iter) st (filter (\<lambda>db. db \<noteq> d) dbs)
       \<and> (d \<in> fst ` set (db_stats (foldl (process_database srv iter) st dbs))
            \<longrightarrow> d \<in> fst ` set (db_stats st))
       \<and> (database_connect srv db = None \<and> database_objects srv db = Inr rows
            \<and> database_tables srv db = Inr tables \<longrightarrow>
            process_database srv iter st db =
              \<lparr>all_actions = all_actions st
                 @ fst (prepare_commit_actions iter db (map convert_row rows) tables (tracked st)),
               db_stats = dict_set (db_stats st) db
                 (snd (prepare_commit_actions iter db (map convert_row rows) tables (tracked st))),
               tracked = tracked st\<rparr>)
       \<and> sync_and_commit env srv tree proj iter timestamp dbs
           = sync_and_commit env srv tree proj iter timestamp (filter (\<lambda>db. db \<noteq> d) dbs)
       \<and> (get_existing_files tree = Inr existing \<longrightarrow>
            requests (snd (sync_and_commit env srv tree proj iter timestamp dbs))
              = requests proj @
                (let merged = all_actions (foldl (process_database srv iter)
                       \<lparr>all_actions = [], db_stats = [], tracked = existing\<rparr>
                       (filter (\<lambda>db. db \<noteq> d) dbs))
                 in if merged = [] then []
                    else [\<lparr>data_branch = env_GITLAB_BRANCH env,
                           data_commit_message = ''mssql sync: '' @ timestamp,
                           data_actions = merged\<rparr>]))
       \<and> (get_existing_files tree = Inr existing \<and> (\<forall>data. \<exists>c. create proj data = Inr c) \<longrightarrow>
            fst (sync_and_commit env srv tree proj iter timestamp dbs) =
              (let st' = foldl (process_database srv iter)
                           \<lparr>all_actions = [], db_stats = [], tracked = existing\<rparr>
                           (filter (\<lambda>db. db \<noteq> d) dbs)
               in Inr \<lparr>databases_processed = length (db_stats st'),
                       total_objects = sum_list (map (\<lambda>s. fst (snd s)) (db_stats st')),
                       total_deletions = sum_list (map (\<lambda>s. snd (snd s)) (db_stats st'))\<rparr>))
       \<and> (fst (sync_and_commit env srv tree proj iter timestamp dbs) = Inl e'
            \<longrightarrow> get_existing_files tree = Inl e' \<or> (\<exists>data. create proj data = Inl e'))"
proof -
  have loop: "foldl (process_database srv iter) s dbs
           = foldl (process_database srv iter) s (filter (\<lambda>db. db \<noteq> d) dbs)" for s
    by (rule process_databases_failed [OF assms])
  have keys: "d \<in> fst ` set (db_stats st)"
    if "d \<in> fst ` set (db_stats (foldl (process_database srv iter) st dbs))"
  proof -
    have "d \<in> fst ` set (db_stats (foldl (process_database srv iter) st
                 (filter (\<lambda>db. db \<noteq> d) dbs)))"
      using that loop [of st] by simp
    then have "d \<in> fst ` set (db_stats st) \<union> set (filter (\<lambda>db. db \<noteq> d) dbs)"
      using process_databases_keys by blast
    then show ?thesis by simp
  qed
  have sync: "sync_and_commit env srv tree proj iter timestamp dbs
           = sync_and_commit env srv tree proj iter timestamp (filter (\<lambda>db. db \<noteq> d) dbs)"
    unfolding sync_and_commit_def by (simp only: loop)
  have reqs: "requests (snd (sync_and_commit env srv tree proj iter timestamp dbs))
              = requests proj @
                (let merged = all_actions (foldl (process_database srv iter)
                       \<lparr>all_actions = [], db_stats = [], tracked = existing\<rparr>
                       (filter (\<lambda>db. db \<noteq> d) dbs))
                 in if merged = [] then []
                    else [\<lparr>data_branch = env_GITLAB_BRANCH env,
                           data_commit_message = ''mssql sync: '' @ timestamp,
                           data_actions = merged\<rparr>])"
    if "get_existing_files tree = Inr existing"
    using sync_and_commit_requests [OF that, of env srv proj iter timestamp
        "filter (\<lambda>db. db \<noteq> d) dbs"]
    by (simp only: sync)
  have ok: "fst (sync_and_commit env srv tree proj iter timestamp dbs) =
              (let st' = foldl (process_database srv iter)
                           \<lparr>all_actions = [], db_stats = [], tracked = existing\<rparr>
                           (filter (\<lambda>db. db \<noteq> d) dbs)
               in Inr \<lparr>databases_processed = length (db_stats st'),
                       total_objects = sum_list (map (\<lambda>s. fst (snd s)) (db_stats st')),
                       total_deletions = sum_list (map (\<lambda>s. snd (snd s)) (db_stats st'))\<rparr>)"
    if "get_existing_files tree = Inr existing \<and> (\<forall>data. \<exists>c. create proj data = Inr c)"
    using sync_and_commit_Inr [OF that [THEN conjunct1] that [THEN conjunct2],
        of env srv iter timestamp "filter (\<lambda>db. db \<noteq> d) dbs"]
    by (simp only: sync)
  have fetched: "process_database srv iter st db =
              \<lparr>all_actions = all_actions st
                 @ fst (prepare_commit_actions iter db (map convert_row rows) tables (tracked st)),
               db_stats = dict_set (db_stats st) db
                 (snd (prepare_commit_actions iter db (map convert_row rows) tables (tracked st))),
               tracked = tracked st\<rparr>"
    if "database_connect srv db = None \<and> database_objects srv db = Inr rows
            \<and> database_tables srv db = Inr tables"
    using that by (intro process_database_fetched) simp_all
  show ?thesis
    using process_database_failed [OF assms, of iter st] loop [of st] keys fetched sync reqs ok
      sync_and_commit_Inl [of env srv tree proj iter timestamp dbs e']
    by (simp only: simp_thms) blast
qed

theorem failed_database_is_skipped_witness:
  "database_connect
      \<lparr>server_connect = None, server_databases = Inr [],
       database_connect = (\<lambda>db. if db = ''db2'' then Some PyodbcError else None),
       database_objects = (\<lambda>db. Inr []),
       database_tables = (\<lambda>db. Inr [(''dbo'', ''Users'', Some ''CREATE TABLE'')])\<rparr> ''db2''
     = Some PyodbcError
   \<and> fst (sync_and_commit
        \<lparr>env_DATABASE_MODE = None, env_DATABASES = Some ''db1,db2,db3'',
         env_EXCLUDE_DATABASES = None, env_GITLAB_BRANCH = Some ''main''\<rparr>
        \<lparr>server_connect = None, server_databases = Inr [],
         database_connect = (\<lambda>db. if db = ''db2'' then Some PyodbcError else None),
         database_objects = (\<lambda>db. Inr []),
         database_tables = (\<lambda>db. Inr [(''dbo'', ''Users'', Some ''CREATE TABLE'')])\<rparr>
        (Inr [])
        \<lparr>create = (\<lambda>data. Inr \<lparr>additions = 2, deletions = 0, commit_id = ''c1''\<rparr>),
         requests = []\<rparr>
        ascending ''2025-11-22 23:55:00'' [''db1'', ''db2'', ''db3''])
     = Inr \<lparr>databases_processed = 2, total_objects = 2, total_deletions = 0\<rparr>
   \<and> requests (snd (sync_and_commit
        \<lparr>env_DATABASE_MODE = None, env_DATABASES = Some ''db1,db2,db3'',
         env_EXCLUDE_DATABASES = None, env_GITLAB_BRANCH = Some ''main''\<rparr>
        \<lparr>server_connect = None, server_databases = Inr [],
         database_connect = (\<lambda>db. if db = ''db2'' then Some PyodbcError else None),
         database_objects = (\<lambda>db. Inr []),
         database_tables = (\<lambda>db. Inr [(''dbo'', ''Users'', Some ''CREATE TABLE'')])\<rparr>
        (Inr [])
        \<lparr>create = (\<lambda>data. Inr \<lparr>additions = 2, deletions = 0, commit_id = ''c1''\<rparr>),
         requests = []\<rparr>
        ascending ''2025-11-22 23:55:00'' [''db1'', ''db2'', ''db3'']))
     = [\<lparr>data_branch = Some ''main'',
         data_commit_message = ''mssql sync: 2025-11-22 23:55:00'',
         data_actions =
           [\<lparr>action = ''create'', file_path = ''db1/tables/dbo.Users.sql'',
              content = Some ''CREATE TABLE''\<rparr>,
            \<lparr>action = ''create'', file_path = ''db3/tables/dbo.Users.sql'',
              content = Some ''CREATE TABLE''\<rparr>]\<rparr>]"
proof -
  let ?srv = "\<lparr>server_connect = None, server_databases = Inr [],
       database_connect = (\<lambda>db. if db = ''db2'' then Some PyodbcError else None),
       database_objects = (\<lambda>db. Inr []),
       database_tables = (\<lambda>db. Inr [(''dbo'', ''Users'', Some ''CREATE TABLE'')])\<rparr>"
  let ?env = "\<lparr>env_DATABASE_MODE = None, env_DATABASES = Some ''db1,db2,db3'',
         env_EXCLUDE_DATABASES = None, env_GITLAB_BRANCH = Some ''main''\<rparr>"
  let ?proj = "\<lparr>create = (\<lambda>data. Inr \<lparr>additions = 2, deletions = 0, commit_id = ''c1''\<rparr>),
         requests = []\<rparr>"
  have h: "database_connect ?srv ''db2'' = Some PyodbcError
      \<or> database_objects ?srv ''db2'' = Inl PyodbcError
      \<or> database_tables ?srv ''db2'' = Inl PyodbcError"
    by simp
  have c: "database_connect ?srv ''db2'' = Some PyodbcError"
    by simp
  have f: "filter (\<lambda>db. db \<noteq> ''db2'') [''db1'', ''db2'', ''db3''] = [''db1'', ''db3'']"
    by simp
  have "sync_and_commit ?env ?srv (Inr []) ?proj ascending ''2025-11-22 23:55:00''
          [''db1'', ''db2'', ''db3'']
      = sync_and_commit ?env ?srv (Inr []) ?proj ascending ''2025-11-22 23:55:00''
          (filter (\<lambda>db. db \<noteq> ''db2'') [''db1'', ''db2'', ''db3''])"
    using failed_database_is_skipped [OF h]
    by (rule conjunct1 [OF conjunct2 [OF conjunct2 [OF conjunct2 [OF conjunct2]]]])
  then have s: "sync_and_commit ?env ?srv (Inr []) ?proj ascending ''2025-11-22 23:55:00''
          [''db1'', ''db2'', ''db3'']
      = sync_and_commit ?env ?srv (Inr []) ?proj ascending ''2025-11-22 23:55:00''
          [''db1'', ''db3'']"
    by (simp only: f)
  have r1: "fst (sync_and_commit ?env ?srv (Inr []) ?proj ascending ''2025-11-22 23:55:00''
          [''db1'', ''db3''])
      = Inr \<lparr>databases_processed = 2, total_objects = 2, total_deletions = 0\<rparr>"
    by code_simp
  have r2: "requests (snd (sync_and_commit ?env ?srv (Inr []) ?proj ascending
          ''2025-11-22 23:55:00'' [''db1'', ''db3'']))
     = [\<lparr>data_branch = Some ''main'',
         data_commit_message = ''mssql sync: 2025-11-22 23:55:00'',
         data_actions =
           [\<lparr>action = ''create'', file_path = ''db1/tables/dbo.Users.sql'',
              content = Some ''CREATE TABLE''\<rparr>,
            \<lparr>action = ''create'', file_path = ''db3/tables/dbo.Users.sql'',
              content = Some ''CREATE TABLE''\<rparr>]\<rparr>]"
    by code_simp
  show ?thesis
    using c r1 r2 by (simp only: s simp_thms)
qed

section \<open>The normalizer: matches and rewrites\<close>






lemma literal_Some_append: "literal p u = Some r \<Longrightarrow> literal p (u @ x) = Some (r @ x)"
  by (induction p u rule: literal.induct) (auto split: if_splits)





































































end
